theory Spec2Isabelle
  imports Main
begin

section \<open>Todo entity and title validation (models/Todo.ts)\<close>

text \<open>
  Strings are lists of characters and \<open>length\<close> counts them, as the \<open>length\<close> of a
  TypeScript string counts its code units. \<open>trim\<close> is \<open>String.prototype.trim\<close>: it drops
  the white space and line terminators at both ends. Of the characters that the language
  standard lists, those in the range of \<open>char\<close> are tab, line feed, vertical tab, form feed,
  carriage return, space and the no-break space.
\<close>

definition isWhiteSpace :: "char \<Rightarrow> bool" where
  "isWhiteSpace c =
     (c = CHR 0x09 \<or> c = CHR 0x0A \<or> c = CHR 0x0B \<or> c = CHR 0x0C \<or> c = CHR 0x0D \<or>
      c = CHR 0x20 \<or> c = CHR 0xA0)"

definition trim :: "string \<Rightarrow> string" where
  "trim s = rev (dropWhile isWhiteSpace (rev (dropWhile isWhiteSpace s)))"

definition MIN_TITLE_LENGTH :: nat where
  "MIN_TITLE_LENGTH = 1"

definition MAX_TITLE_LENGTH :: nat where
  "MAX_TITLE_LENGTH = 100"

text \<open>\<open>TodoValidation.isValidTitle\<close>; the test \<open>typeof title === 'string'\<close> is the type.\<close>

definition isValidTitle :: "string \<Rightarrow> bool" where
  "isValidTitle t =
     (length (trim t) \<ge> MIN_TITLE_LENGTH \<and> length (trim t) \<le> MAX_TITLE_LENGTH)"

definition sanitizeTitle :: "string \<Rightarrow> string" where
  "sanitizeTitle t = trim t"

text \<open>
  A \<open>Date\<close> object is its time value: milliseconds since the epoch, or the invalid date.
  Dates are values here; the setters of \<open>Date\<close> are not modelled.
\<close>

datatype date = Date int | InvalidDate

text \<open>
  The interface \<open>Todo\<close>. At run time an object may lack \<open>description\<close> and \<open>updatedAt\<close>
  (the object literal of \<open>TodoModel.add\<close> sets neither), hence the options.
\<close>

record Todo =
  todo_id :: string
  title :: string
  description :: "string option"
  completed :: bool
  createdAt :: date
  updatedAt :: "date option"

text \<open>An \<open>Error\<close> object is its message; \<open>toString\<close> is what a template literal prints.\<close>

datatype Error = Error string

fun toString :: "Error \<Rightarrow> string" where
  "toString (Error m) = ''Error: '' @ m"

section \<open>The file system and the JSON text of the collection\<close>

text \<open>
  \<open>JSON.stringify\<close>, \<open>JSON.parse\<close> and the text form of a \<open>Date\<close> belong to the run time.
  A file is represented by what \<open>JSON.parse\<close> reads from it: text that it rejects, or a
  value of the storage format. A time stamp field of a record is \<open>null\<close>, the empty string
  or a non-empty string; a non-empty string is represented by the date that \<open>new Date\<close>
  reads from it. \<open>Date.prototype.toJSON\<close> prints a valid date as the ISO text that reads
  back as that date, and an invalid date as \<open>null\<close>.
\<close>

datatype json_ts = JNull | JEmptyString | JDateString date

record json_todo =
  j_id :: string
  j_title :: string
  j_description :: "string option"
  j_completed :: bool
  j_createdAt :: json_ts
  j_updatedAt :: "json_ts option"

text \<open>
  The interface \<open>TodoStorageFormat\<close>; \<open>fmt_todos\<close> is \<open>None\<close> when the field \<open>todos\<close> is
  absent or is not an array.
\<close>

record TodoStorageFormat =
  fmt_version :: string
  fmt_todos :: "json_todo list option"

datatype content = Unparsable | Parsed TodoStorageFormat

datatype fs_call =
    MkdirSync string
  | WriteFileSync string content
  | RenameSync string string

text \<open>
  The file system: the files, the directories, and the journal of the mutating calls made
  so far, in order (a call is entered when it is made, whether or not it succeeds).
\<close>

record filesystem =
  files :: "string \<Rightarrow> content option"
  dirs :: "string set"
  journal :: "fs_call list"

text \<open>
  What the platform does during one call of \<open>save\<close>: nothing goes wrong, or one step
  throws. A write that throws leaves any residue at the path it was writing.
\<close>

datatype fault =
    NoFault
  | MkdirFails Error
  | StringifyFails Error
  | WriteFails Error "content option"
  | RenameFails Error

definition mkdirSync :: "fault \<Rightarrow> string \<Rightarrow> filesystem \<Rightarrow> (Error + unit) \<times> filesystem" where
  "mkdirSync flt dir d =
     (let d1 = d\<lparr>journal := journal d @ [MkdirSync dir]\<rparr> in
      case flt of
        MkdirFails e \<Rightarrow> (Inl e, d1)
      | _ \<Rightarrow> (Inr (), d1\<lparr>dirs := insert dir (dirs d1)\<rparr>))"

definition writeFileSync ::
  "fault \<Rightarrow> string \<Rightarrow> content \<Rightarrow> filesystem \<Rightarrow> (Error + unit) \<times> filesystem" where
  "writeFileSync flt p c d =
     (let d1 = d\<lparr>journal := journal d @ [WriteFileSync p c]\<rparr> in
      case flt of
        WriteFails e residue \<Rightarrow> (Inl e, d1\<lparr>files := (files d1)(p := residue)\<rparr>)
      | _ \<Rightarrow> (Inr (), d1\<lparr>files := (files d1)(p \<mapsto> c)\<rparr>))"

definition renameSync ::
  "fault \<Rightarrow> string \<Rightarrow> string \<Rightarrow> filesystem \<Rightarrow> (Error + unit) \<times> filesystem" where
  "renameSync flt old new d =
     (let d1 = d\<lparr>journal := journal d @ [RenameSync old new]\<rparr> in
      case flt of
        RenameFails e \<Rightarrow> (Inl e, d1)
      | _ \<Rightarrow>
          (case files d1 old of
             None \<Rightarrow> (Inl (Error ''ENOENT: no such file or directory, rename''), d1)
           | Some c \<Rightarrow> (Inr (), d1\<lparr>files := (files d1)(new \<mapsto> c, old := None)\<rparr>)))"

definition existsSync :: "string \<Rightarrow> filesystem \<Rightarrow> bool" where
  "existsSync p d = (files d p \<noteq> None)"

definition readFileSync :: "Error option \<Rightarrow> string \<Rightarrow> filesystem \<Rightarrow> Error + content" where
  "readFileSync rf p d =
     (case rf of
        Some e \<Rightarrow> Inl e
      | None \<Rightarrow>
          (case files d p of
             None \<Rightarrow> Inl (Error ''ENOENT: no such file or directory, open'')
           | Some c \<Rightarrow> Inr c))"

text \<open>
  \<open>path.dirname\<close> on a resolved path (\<open>Storage\<close> keeps \<open>path.resolve(filePath)\<close>): the
  text before the last separator.
\<close>

definition dirname :: "string \<Rightarrow> string" where
  "dirname p =
     (let r = dropWhile (\<lambda>c. c \<noteq> CHR ''/'') (rev p) in
      if r = [] then ''.'' else if tl r = [] then ''/'' else rev (tl r))"

definition date_toJSON :: "date \<Rightarrow> json_ts" where
  "date_toJSON d = (case d of Date t \<Rightarrow> JDateString (Date t) | InvalidDate \<Rightarrow> JNull)"

text \<open>
  \<open>new Date(v)\<close> for the value of a field: \<open>undefined\<close> and the empty string give the
  invalid date, \<open>null\<close> gives the epoch.
\<close>

definition newDate :: "json_ts option \<Rightarrow> date" where
  "newDate v =
     (case v of
        None \<Rightarrow> InvalidDate
      | Some JNull \<Rightarrow> Date 0
      | Some JEmptyString \<Rightarrow> InvalidDate
      | Some (JDateString d) \<Rightarrow> d)"

definition truthy :: "json_ts option \<Rightarrow> bool" where
  "truthy v = (case v of Some (JDateString d) \<Rightarrow> True | _ \<Rightarrow> False)"

text \<open>What \<open>JSON.stringify\<close> writes for one todo: a property that is \<open>undefined\<close> is left out.\<close>

definition todo_toJSON :: "Todo \<Rightarrow> json_todo" where
  "todo_toJSON t =
     \<lparr>j_id = todo_id t, j_title = title t, j_description = description t,
      j_completed = completed t, j_createdAt = date_toJSON (createdAt t),
      j_updatedAt = map_option date_toJSON (updatedAt t)\<rparr>"

definition JSON_stringify :: "fault \<Rightarrow> TodoStorageFormat \<Rightarrow> Error + content" where
  "JSON_stringify flt v = (case flt of StringifyFails e \<Rightarrow> Inl e | _ \<Rightarrow> Inr (Parsed v))"

definition JSON_parse :: "content \<Rightarrow> Error + TodoStorageFormat" where
  "JSON_parse c =
     (case c of
        Unparsable \<Rightarrow> Inl (Error ''SyntaxError: Unexpected token'')
      | Parsed v \<Rightarrow> Inr v)"

section \<open>Storage (utils/storage.ts)\<close>

definition version :: string where
  "version = ''1.0.0''"

text \<open>
  The callback of \<open>parsed.todos.map\<close> in \<open>load\<close>: the spread keeps the other properties,
  and both time stamps become dates.
\<close>

definition revive :: "json_todo \<Rightarrow> Todo" where
  "revive j =
     \<lparr>todo_id = j_id j, title = j_title j, description = j_description j,
      completed = j_completed j,
      createdAt = newDate (Some (j_createdAt j)),
      updatedAt = Some (if truthy (j_updatedAt j) then newDate (j_updatedAt j)
                        else newDate (Some (j_createdAt j)))\<rparr>"

text \<open>The body of the \<open>try\<close> block of \<open>Storage.load\<close>; \<open>rf\<close> is the error of a failing read.\<close>

definition load_try :: "Error option \<Rightarrow> string \<Rightarrow> filesystem \<Rightarrow> Error + Todo list" where
  "load_try rf filePath d =
     (if \<not> existsSync filePath d then Inr []
      else
        (case readFileSync rf filePath d of
           Inl e \<Rightarrow> Inl e
         | Inr data \<Rightarrow>
             (case JSON_parse data of
                Inl e \<Rightarrow> Inl e
              | Inr parsed \<Rightarrow>
                  (case fmt_todos parsed of
                     Some ts \<Rightarrow> Inr (map revive ts)
                   | None \<Rightarrow> Inr []))))"

text \<open>\<open>Storage.load\<close>: the \<open>catch\<close> block warns on the console and returns the empty array.\<close>

definition load :: "Error option \<Rightarrow> string \<Rightarrow> filesystem \<Rightarrow> Error + Todo list" where
  "load rf filePath d =
     (case load_try rf filePath d of
        Inl e \<Rightarrow> Inr []
      | Inr ts \<Rightarrow> Inr ts)"

text \<open>The body of the \<open>try\<close> block of \<open>Storage.save\<close>, statement by statement.\<close>

definition save_try ::
  "fault \<Rightarrow> string \<Rightarrow> Todo list \<Rightarrow> filesystem \<Rightarrow> (Error + unit) \<times> filesystem" where
  "save_try flt filePath ts d =
     (let data = \<lparr>fmt_version = version, fmt_todos = Some (map todo_toJSON ts)\<rparr>;
          dir = dirname filePath
      in case mkdirSync flt dir d of
           (Inl e, d1) \<Rightarrow> (Inl e, d1)
         | (Inr u, d1) \<Rightarrow>
             (let tempFile = filePath @ ''.tmp''
              in case JSON_stringify flt data of
                   Inl e \<Rightarrow> (Inl e, d1)
                 | Inr text \<Rightarrow>
                     (case writeFileSync flt tempFile text d1 of
                        (Inl e, d2) \<Rightarrow> (Inl e, d2)
                      | (Inr u, d2) \<Rightarrow> renameSync flt tempFile filePath d2)))"

text \<open>\<open>Storage.save\<close>: the \<open>catch\<close> block wraps whatever was thrown.\<close>

definition save ::
  "fault \<Rightarrow> string \<Rightarrow> Todo list \<Rightarrow> filesystem \<Rightarrow> (Error + unit) \<times> filesystem" where
  "save flt filePath ts d =
     (case save_try flt filePath ts d of
        (Inl e, d1) \<Rightarrow> (Inl (Error (''Failed to save todos: '' @ toString e)), d1)
      | (Inr u, d1) \<Rightarrow> (Inr u, d1))"

section \<open>TodoModel (models/TodoModel.ts)\<close>

text \<open>
  Todo objects live in a store and are handled by reference, so that it shows whether a
  method hands out the object of the collection or a copy of it. A reference is an index
  into \<open>heap\<close>; \<open>todos\<close> is the array \<open>this.todos\<close> of references; \<open>filePath\<close> is the path
  that \<open>this.storage\<close> keeps; \<open>disk\<close> is the file system. In a running program every
  reference is an object of the store, that is, an index below the length of \<open>heap\<close>;
  the constructor and the methods keep it so (\<open>mem_ok\<close> below).
\<close>

record state =
  heap :: "Todo list"
  todos :: "nat list"
  filePath :: string
  disk :: filesystem

definition deref :: "state \<Rightarrow> nat \<Rightarrow> Todo" where
  "deref s r = heap s ! r"

text \<open>A new object: the next free index.\<close>

definition alloc :: "Todo \<Rightarrow> state \<Rightarrow> nat \<times> state" where
  "alloc t s = (length (heap s), s\<lparr>heap := heap s @ [t]\<rparr>)"

text \<open>The spread \<open>{ ...todo }\<close>: a new object with the same property values.\<close>

definition spread :: "nat \<Rightarrow> state \<Rightarrow> nat \<times> state" where
  "spread r s = alloc (deref s r) s"

fun map_spread :: "nat list \<Rightarrow> state \<Rightarrow> nat list \<times> state" where
  "map_spread [] s = ([], s)"
| "map_spread (r # rs) s =
     (case spread r s of (c, s1) \<Rightarrow>
        (case map_spread rs s1 of (cs, s2) \<Rightarrow> (c # cs, s2)))"

text \<open>The collection by value, in order.\<close>

definition contents :: "state \<Rightarrow> Todo list" where
  "contents s = map (deref s) (todos s)"

text \<open>\<open>this.todos.find(t => t.id === id)\<close>: the first reference whose object has the id.\<close>

definition find_todo :: "string \<Rightarrow> state \<Rightarrow> nat option" where
  "find_todo i s = find (\<lambda>r. todo_id (deref s r) = i) (todos s)"

text \<open>
  The constructor and \<open>loadTodos\<close>: the loaded objects are new objects of a new store.
\<close>

definition new_TodoModel :: "Error option \<Rightarrow> string \<Rightarrow> filesystem \<Rightarrow> state" where
  "new_TodoModel rf storagePath d =
     (let loaded = (case load rf storagePath d of Inl e \<Rightarrow> [] | Inr ts \<Rightarrow> ts)
      in \<lparr>heap = loaded, todos = [0..<length loaded], filePath = storagePath, disk = d\<rparr>)"

definition saveTodos :: "fault \<Rightarrow> state \<Rightarrow> (Error + unit) \<times> state" where
  "saveTodos flt s =
     (case save flt (filePath s) (contents s) (disk s) of
        (Inl e, d) \<Rightarrow> (Inl (Error (''Failed to persist todos: '' @ toString e)), s\<lparr>disk := d\<rparr>)
      | (Inr u, d) \<Rightarrow> (Inr u, s\<lparr>disk := d\<rparr>))"

text \<open>The message of the error for an invalid title, with both bounds printed.\<close>

definition invalid_title :: Error where
  "invalid_title = Error ''Invalid title. Must be between 1 and 100 characters.''"

text \<open>
  \<open>add\<close>: \<open>uid\<close> is what \<open>uuidv4()\<close> returns and \<open>now\<close> the time value of \<open>new Date()\<close>.
  The result is the reference that was pushed.
\<close>

definition add :: "string \<Rightarrow> string \<Rightarrow> int \<Rightarrow> fault \<Rightarrow> state \<Rightarrow> (Error + nat) \<times> state" where
  "add t uid now flt s =
     (if \<not> isValidTitle t then (Inl invalid_title, s)
      else
        (let sanitizedTitle = sanitizeTitle t;
             newTodo = \<lparr>todo_id = uid, title = sanitizedTitle, description = None,
                        completed = False, createdAt = Date now, updatedAt = None\<rparr>
         in case alloc newTodo s of (r, s1) \<Rightarrow>
              (case saveTodos flt (s1\<lparr>todos := todos s1 @ [r]\<rparr>) of
                 (Inl e, s2) \<Rightarrow> (Inl e, s2)
               | (Inr u, s2) \<Rightarrow> (Inr r, s2))))"

definition delete :: "string \<Rightarrow> fault \<Rightarrow> state \<Rightarrow> (Error + bool) \<times> state" where
  "delete i flt s =
     (let initialLength = length (todos s);
          s1 = s\<lparr>todos := filter (\<lambda>r. todo_id (deref s r) \<noteq> i) (todos s)\<rparr>;
          wasDeleted = (length (todos s1) < initialLength)
      in if wasDeleted
         then (case saveTodos flt s1 of
                 (Inl e, s2) \<Rightarrow> (Inl e, s2)
               | (Inr u, s2) \<Rightarrow> (Inr wasDeleted, s2))
         else (Inr wasDeleted, s1))"

text \<open>\<open>toggleComplete\<close> changes the object in place and returns that same reference.\<close>

definition toggleComplete :: "string \<Rightarrow> fault \<Rightarrow> state \<Rightarrow> (Error + nat option) \<times> state" where
  "toggleComplete i flt s =
     (case find_todo i s of
        None \<Rightarrow> (Inr None, s)
      | Some r \<Rightarrow>
          (let s1 = s\<lparr>heap := (heap s)[r := (deref s r)\<lparr>completed := \<not> completed (deref s r)\<rparr>]\<rparr>
           in case saveTodos flt s1 of
                (Inl e, s2) \<Rightarrow> (Inl e, s2)
              | (Inr u, s2) \<Rightarrow> (Inr (Some r), s2)))"

definition getAll :: "state \<Rightarrow> nat list \<times> state" where
  "getAll s = map_spread (todos s) s"

definition getById :: "string \<Rightarrow> state \<Rightarrow> nat option \<times> state" where
  "getById i s =
     (case find_todo i s of
        None \<Rightarrow> (None, s)
      | Some r \<Rightarrow> (case spread r s of (c, s1) \<Rightarrow> (Some c, s1)))"

definition getByStatus :: "bool \<Rightarrow> state \<Rightarrow> nat list \<times> state" where
  "getByStatus b s = map_spread (filter (\<lambda>r. completed (deref s r) = b) (todos s)) s"

text \<open>\<open>updateTitle\<close> changes the object in place and returns a copy of it.\<close>

definition updateTitle ::
  "string \<Rightarrow> string \<Rightarrow> fault \<Rightarrow> state \<Rightarrow> (Error + nat option) \<times> state" where
  "updateTitle i newTitle flt s =
     (if \<not> isValidTitle newTitle then (Inl invalid_title, s)
      else
        (case find_todo i s of
           None \<Rightarrow> (Inr None, s)
         | Some r \<Rightarrow>
             (let s1 = s\<lparr>heap := (heap s)[r := (deref s r)\<lparr>title := sanitizeTitle newTitle\<rparr>]\<rparr>
              in case saveTodos flt s1 of
                   (Inl e, s2) \<Rightarrow> (Inl e, s2)
                 | (Inr u, s2) \<Rightarrow> (case spread r s2 of (c, s3) \<Rightarrow> (Inr (Some c), s3)))))"

definition getCount :: "state \<Rightarrow> nat" where
  "getCount s = length (todos s)"

definition getCompletedCount :: "state \<Rightarrow> nat" where
  "getCompletedCount s = length (filter (\<lambda>r. completed (deref s r)) (todos s))"

definition getIncompleteCount :: "state \<Rightarrow> nat" where
  "getIncompleteCount s = length (filter (\<lambda>r. \<not> completed (deref s r)) (todos s))"

definition clear :: "fault \<Rightarrow> state \<Rightarrow> (Error + nat) \<times> state" where
  "clear flt s =
     (let count = length (todos s);
          s1 = s\<lparr>todos := []\<rparr>
      in case saveTodos flt s1 of
           (Inl e, s2) \<Rightarrow> (Inl e, s2)
         | (Inr u, s2) \<Rightarrow> (Inr count, s2))"

text \<open>What a caller can do with a reference it holds: assign a property of the object.\<close>

definition assign_title :: "nat \<Rightarrow> string \<Rightarrow> state \<Rightarrow> state" where
  "assign_title r v s = s\<lparr>heap := (heap s)[r := (deref s r)\<lparr>title := v\<rparr>]\<rparr>"

section \<open>The panel registry (views/BlessedUIFramework.ts)\<close>

datatype PanelType = TODO_LIST | DETAILS | COMMAND_INPUT | STATUS

text \<open>
  A panel, as far as the registry uses it: which object it is, its \<open>type\<close> and whether it
  is \<open>focusable\<close>. Its methods are opaque to the registry; \<open>focus_emits\<close> says whether its
  \<open>focus()\<close> makes the toolkit emit the focus event of its element, which runs the
  listener that \<open>setupPanelEventHandlers\<close> installed when the panel was registered.
\<close>

record UIPanel =
  panel_id :: nat
  panel_type :: PanelType
  focusable :: bool
  focus_emits :: bool

text \<open>The calls that the registry makes on the panels and on the screen, in order.\<close>

datatype ui_call = Append nat | Blur nat | Focus nat | Render

text \<open>
  The registry: the map \<open>panels\<close>, the field \<open>currentPanel\<close>, the focus listeners that
  registrations have installed on the elements of panels (\<open>listeners\<close>: the panel of each
  listener, one entry for each registration, in order), and the calls made so far.
\<close>

record BlessedUIFramework =
  panels :: "PanelType \<Rightarrow> UIPanel option"
  currentPanel :: PanelType
  listeners :: "UIPanel list"
  calls :: "ui_call list"

definition new_BlessedUIFramework :: BlessedUIFramework where
  "new_BlessedUIFramework =
     \<lparr>panels = Map.empty, currentPanel = TODO_LIST, listeners = [], calls = []\<rparr>"

definition render :: "BlessedUIFramework \<Rightarrow> BlessedUIFramework" where
  "render fw = fw\<lparr>calls := calls fw @ [Render]\<rparr>"

text \<open>
  The listener for the focus event of \<open>panel.element\<close>. \<open>updatePanelBorders\<close> only sets
  colours of the elements and is left out.
\<close>

definition focus_handler :: "UIPanel \<Rightarrow> BlessedUIFramework \<Rightarrow> BlessedUIFramework" where
  "focus_handler p fw = render (fw\<lparr>currentPanel := panel_type p\<rparr>)"

text \<open>
  The toolkit emits the focus event of the element of the panel object \<open>i\<close>: every
  listener installed on that element runs, in the order of installation.
\<close>

definition element_focus :: "nat \<Rightarrow> BlessedUIFramework \<Rightarrow> BlessedUIFramework" where
  "element_focus i fw = fold focus_handler (filter (\<lambda>q. panel_id q = i) (listeners fw)) fw"

text \<open>
  \<open>registerPanel\<close>: the panel is stored under its type, its element is appended to the
  screen, and then \<open>setupPanelEventHandlers\<close> installs the focus listener. What the toolkit
  does inside \<open>screen.append\<close> is its own affair: \<open>evs\<close> lists the panel objects whose
  elements it sends a focus event while appending, in order (none, the appended element
  when the screen had no focus or when a focused element is appended again, or an
  element that gets the focus back). Listeners of earlier registrations run on these
  events; the listener of this registration is installed after the append.
\<close>

definition registerPanel ::
  "nat list \<Rightarrow> UIPanel \<Rightarrow> BlessedUIFramework \<Rightarrow> BlessedUIFramework" where
  "registerPanel evs p fw =
     (let fw1 = fw\<lparr>panels := (panels fw)(panel_type p \<mapsto> p)\<rparr>;
          fw2 = fold element_focus evs (fw1\<lparr>calls := calls fw1 @ [Append (panel_id p)]\<rparr>)
      in fw2\<lparr>listeners := listeners fw2 @ [p]\<rparr>)"

definition panel_blur :: "UIPanel \<Rightarrow> BlessedUIFramework \<Rightarrow> BlessedUIFramework" where
  "panel_blur p fw = fw\<lparr>calls := calls fw @ [Blur (panel_id p)]\<rparr>"

text \<open>
  The call \<open>panel.focus()\<close>. When the panel passes the focus to its element, the listener
  of the panel runs (the listener of a panel that was registered once; each further
  registration of the same panel adds a listener that repeats the same assignment and
  render).
\<close>

definition panel_focus :: "UIPanel \<Rightarrow> BlessedUIFramework \<Rightarrow> BlessedUIFramework" where
  "panel_focus p fw =
     (let fw1 = fw\<lparr>calls := calls fw @ [Focus (panel_id p)]\<rparr>
      in if focus_emits p then focus_handler p fw1 else fw1)"

definition switchToPanel :: "PanelType \<Rightarrow> BlessedUIFramework \<Rightarrow> BlessedUIFramework" where
  "switchToPanel panelType fw =
     (case panels fw panelType of
        None \<Rightarrow> fw
      | Some panel \<Rightarrow>
          if \<not> focusable panel then fw
          else
            (let fw1 = (case panels fw (currentPanel fw) of
                          None \<Rightarrow> fw
                        | Some cur \<Rightarrow> panel_blur cur fw);
                 fw2 = fw1\<lparr>currentPanel := panelType\<rparr>;
                 fw3 = panel_focus panel fw2
             in render fw3))"

text \<open>The calls made since the registry was in the state \<open>fw0\<close>.\<close>

definition calls_since :: "BlessedUIFramework \<Rightarrow> BlessedUIFramework \<Rightarrow> ui_call list" where
  "calls_since fw0 fw = drop (length (calls fw0)) (calls fw)"

section \<open>Auxiliary definitions for the statements\<close>

text \<open>What \<open>save\<close> writes for a collection, and the calls of a complete \<open>save\<close>, in order.\<close>

definition save_data :: "Todo list \<Rightarrow> content" where
  "save_data ts = Parsed \<lparr>fmt_version = version, fmt_todos = Some (map todo_toJSON ts)\<rparr>"

definition save_calls :: "string \<Rightarrow> Todo list \<Rightarrow> fs_call list" where
  "save_calls p ts =
     [MkdirSync (dirname p), WriteFileSync (p @ ''.tmp'') (save_data ts),
      RenameSync (p @ ''.tmp'') p]"

text \<open>Concrete inputs for the examples: an empty disk, a path, a todo, two panels.\<close>

definition empty_disk :: filesystem where
  "empty_disk = \<lparr>files = Map.empty, dirs = {}, journal = []\<rparr>"

definition todos_json :: string where
  "todos_json = ''/app/data/todos.json''"

definition milk :: Todo where
  "milk = \<lparr>todo_id = ''7f3c'', title = ''Buy milk'', description = None, completed = False,
            createdAt = Date 1758189600000, updatedAt = Some (Date 1758189600000)\<rparr>"

definition list_panel :: UIPanel where
  "list_panel = \<lparr>panel_id = 1, panel_type = TODO_LIST, focusable = True, focus_emits = True\<rparr>"

definition details_panel :: UIPanel where
  "details_panel = \<lparr>panel_id = 2, panel_type = DETAILS, focusable = True, focus_emits = True\<rparr>"

definition status_panel :: UIPanel where
  "status_panel = \<lparr>panel_id = 3, panel_type = STATUS, focusable = False, focus_emits = False\<rparr>"

definition legacy_disk :: filesystem where
  "legacy_disk =
     \<lparr>files = [todos_json \<mapsto>
        Parsed \<lparr>fmt_version = ''1.0.0'',
                fmt_todos = Some [\<lparr>j_id = ''7f3c'', j_title = ''Buy milk'',
                  j_description = None, j_completed = False,
                  j_createdAt = JDateString (Date 1758189600000),
                  j_updatedAt = None\<rparr>]\<rparr>],
      dirs = {''/app/data''}, journal = []\<rparr>"

definition corrupt_disk :: filesystem where
  "corrupt_disk = \<lparr>files = [todos_json \<mapsto> Unparsable], dirs = {''/app/data''}, journal = []\<rparr>"

text \<open>A model on empty storage, and that model after \<open>add('  Buy milk ')\<close>.\<close>

definition fresh :: state where
  "fresh = new_TodoModel None todos_json empty_disk"

definition added :: state where
  "added = snd (add ''  Buy milk '' ''7f3c'' 1758189600000 NoFault fresh)"

text \<open>The titles of the objects that \<open>getAll\<close> returns.\<close>

definition shown_titles :: "state \<Rightarrow> string list" where
  "shown_titles s = (case getAll s of (cs, s') \<Rightarrow> map (\<lambda>c. title (deref s' c)) cs)"

text \<open>The error that a fault makes the platform throw.\<close>

fun thrown :: "fault \<Rightarrow> Error option" where
  "thrown NoFault = None"
| "thrown (MkdirFails e) = Some e"
| "thrown (StringifyFails e) = Some e"
| "thrown (WriteFails e res) = Some e"
| "thrown (RenameFails e) = Some e"

text \<open>
  What a mutating method throws when the platform threw \<open>e\<close> during the save: \<open>saveTodos\<close>
  wraps the error of \<open>save\<close>, which wraps \<open>e\<close>.
\<close>

definition persist_error :: "Error \<Rightarrow> Error" where
  "persist_error e =
     Error (''Failed to persist todos: Error: Failed to save todos: '' @ toString e)"

text \<open>A title as the model means to store it: trimmed, of 1 to 100 characters.\<close>

definition title_ok :: "string \<Rightarrow> bool" where
  "title_ok t = (trim t = t \<and> 1 \<le> length t \<and> length t \<le> 100)"

text \<open>Every title in the file at a path is such a title (when the file holds todos).\<close>

definition file_titles_ok :: "string \<Rightarrow> filesystem \<Rightarrow> bool" where
  "file_titles_ok p d =
     (case files d p of
        Some (Parsed f) \<Rightarrow>
          (case fmt_todos f of
             Some js \<Rightarrow> list_all (\<lambda>j. title_ok (j_title j)) js
           | None \<Rightarrow> True)
      | _ \<Rightarrow> True)"

text \<open>
  The states that the methods of the model reach from empty storage, restarts on the
  model's own file included. Callers that write through a reference they hold are not
  part of it.
\<close>

inductive reachable :: "state \<Rightarrow> bool" where
  start: "files d p = None \<Longrightarrow> reachable (new_TodoModel rf p d)"
| restart: "reachable s \<Longrightarrow> reachable (new_TodoModel rf (filePath s) (disk s))"
| add: "reachable s \<Longrightarrow> reachable (snd (add t uid now flt s))"
| delete: "reachable s \<Longrightarrow> reachable (snd (delete i flt s))"
| toggleComplete: "reachable s \<Longrightarrow> reachable (snd (toggleComplete i flt s))"
| updateTitle: "reachable s \<Longrightarrow> reachable (snd (updateTitle i t flt s))"
| clear: "reachable s \<Longrightarrow> reachable (snd (clear flt s))"
| getAll: "reachable s \<Longrightarrow> reachable (snd (getAll s))"
| getById: "reachable s \<Longrightarrow> reachable (snd (getById i s))"
| getByStatus: "reachable s \<Longrightarrow> reachable (snd (getByStatus b s))"

text \<open>The references of the collection are objects of the store, with such titles.\<close>

definition mem_ok :: "state \<Rightarrow> bool" where
  "mem_ok s = list_all (\<lambda>r. r < length (heap s) \<and> title_ok (title (heap s ! r))) (todos s)"

definition titles_inv :: "state \<Rightarrow> bool" where
  "titles_inv s = (mem_ok s \<and> file_titles_ok (filePath s) (disk s))"

section \<open>Storage: the atomic replace\<close>

lemma dirname_tmp: "dirname (p @ ''.tmp'') = dirname p"
  by (simp add: dirname_def)

text \<open>What \<open>save\<close> returns and leaves behind, fault by fault.\<close>

lemma save_cases:
  "save flt p ts d = (r, d') \<Longrightarrow>
     (flt = NoFault \<and> r = Inr () \<and>
        journal d' = journal d @ save_calls p ts \<and>
        files d' = (files d)(p \<mapsto> save_data ts, p @ ''.tmp'' := None)) \<or>
     (\<exists>e. flt = MkdirFails e \<and> r = Inl (Error (''Failed to save todos: '' @ toString e)) \<and>
        journal d' = journal d @ take 1 (save_calls p ts) \<and> files d' = files d) \<or>
     (\<exists>e. flt = StringifyFails e \<and> r = Inl (Error (''Failed to save todos: '' @ toString e)) \<and>
        journal d' = journal d @ take 1 (save_calls p ts) \<and> files d' = files d) \<or>
     (\<exists>e res. flt = WriteFails e res \<and>
        r = Inl (Error (''Failed to save todos: '' @ toString e)) \<and>
        journal d' = journal d @ take 2 (save_calls p ts) \<and>
        files d' = (files d)(p @ ''.tmp'' := res)) \<or>
     (\<exists>e. flt = RenameFails e \<and> r = Inl (Error (''Failed to save todos: '' @ toString e)) \<and>
        journal d' = journal d @ take 3 (save_calls p ts) \<and>
        files d' = (files d)(p @ ''.tmp'' \<mapsto> save_data ts))"
  by (cases flt)
     (auto simp: save_def save_try_def mkdirSync_def writeFileSync_def renameSync_def
        JSON_stringify_def save_data_def save_calls_def Let_def)

lemma save_final_path:
  assumes "save flt p ts d = (r, d')"
  shows "files d' p = (if flt = NoFault then Some (save_data ts) else files d p)"
  using save_cases [OF assms] by auto

lemma save_result:
  assumes "save flt p ts d = (r, d')"
  shows "(r = Inr ()) = (flt = NoFault)"
  using save_cases [OF assms] by auto

text \<open>
  C1. Every call of \<open>save\<close> makes an initial part of the same three calls: create the
  directory, write the whole collection (version and todos) to the path with the suffix
  \<open>.tmp\<close>, which lies in the same directory, and rename that file to the final path. None
  of them writes to the final path. A call that returns has made all three, and the
  final path then holds the collection and the temporary file is gone. A call that
  throws leaves the final path as it was; when the serialisation or the write of the
  temporary file fails, the error thrown is \<open>Failed to save todos:\<close> followed by the
  cause.
\<close>

theorem save_atomic_replace:
  assumes "save flt p ts d = (r, d')"
  shows "p @ ''.tmp'' \<noteq> p \<and> dirname (p @ ''.tmp'') = dirname p \<and>
         (\<exists>n. journal d' = journal d @ take n (save_calls p ts)) \<and>
         (\<forall>c. WriteFileSync p c \<notin> set (save_calls p ts)) \<and>
         (r = Inr () \<longleftrightarrow> flt = NoFault) \<and>
         (r = Inr () \<longrightarrow>
            journal d' = journal d @ save_calls p ts \<and>
            files d' p = Some (save_data ts) \<and> files d' (p @ ''.tmp'') = None) \<and>
         (r \<noteq> Inr () \<longrightarrow> files d' p = files d p) \<and>
         (\<forall>e. flt = StringifyFails e \<or> (\<exists>res. flt = WriteFails e res) \<longrightarrow>
            r = Inl (Error (''Failed to save todos: '' @ toString e)) \<and>
            files d' p = files d p)"
proof -
  note c = save_cases [OF assms]
  have full: "take 3 (save_calls p ts) = save_calls p ts"
    by (simp add: save_calls_def)
  have 1: "p @ ''.tmp'' \<noteq> p"
    by simp
  have "journal d' = journal d @ take 3 (save_calls p ts) \<or>
        journal d' = journal d @ take 2 (save_calls p ts) \<or>
        journal d' = journal d @ take 1 (save_calls p ts)"
    using c by (auto simp: full)
  then have 2: "\<exists>n. journal d' = journal d @ take n (save_calls p ts)"
    by blast
  have 3: "\<forall>c. WriteFileSync p c \<notin> set (save_calls p ts)"
    by (simp add: save_calls_def)
  have 4: "(r = Inr ()) = (flt = NoFault)"
    by (rule save_result [OF assms])
  have 5: "r = Inr () \<longrightarrow>
            journal d' = journal d @ save_calls p ts \<and>
            files d' p = Some (save_data ts) \<and> files d' (p @ ''.tmp'') = None"
    using c by auto
  have 6: "r \<noteq> Inr () \<longrightarrow> files d' p = files d p"
    using 4 save_final_path [OF assms] by simp
  have 7: "\<forall>e. flt = StringifyFails e \<or> (\<exists>res. flt = WriteFails e res) \<longrightarrow>
            r = Inl (Error (''Failed to save todos: '' @ toString e)) \<and>
            files d' p = files d p"
    using c by auto
  from 1 dirname_tmp 2 3 4 5 6 7 show ?thesis
    by blast
qed

theorem save_atomic_replace_witness:
  "fst (save NoFault todos_json [milk] empty_disk) = Inr () \<and>
   journal (snd (save NoFault todos_json [milk] empty_disk)) =
     [MkdirSync ''/app/data'',
      WriteFileSync ''/app/data/todos.json.tmp'' (save_data [milk]),
      RenameSync ''/app/data/todos.json.tmp'' ''/app/data/todos.json''] \<and>
   files (snd (save NoFault todos_json [milk] empty_disk)) todos_json =
     Some (save_data [milk]) \<and>
   fst (save (WriteFails (Error ''ENOSPC'') (Some Unparsable)) todos_json [milk] empty_disk) =
     Inl (Error ''Failed to save todos: Error: ENOSPC'') \<and>
   files (snd (save (WriteFails (Error ''ENOSPC'') (Some Unparsable)) todos_json [milk]
     empty_disk)) todos_json = None"
  using
    save_atomic_replace [of NoFault todos_json "[milk]" empty_disk
      "fst (save NoFault todos_json [milk] empty_disk)"
      "snd (save NoFault todos_json [milk] empty_disk)"]
    save_atomic_replace [of "WriteFails (Error ''ENOSPC'') (Some Unparsable)" todos_json
      "[milk]" empty_disk
      "fst (save (WriteFails (Error ''ENOSPC'') (Some Unparsable)) todos_json [milk]
         empty_disk)"
      "snd (save (WriteFails (Error ''ENOSPC'') (Some Unparsable)) todos_json [milk]
         empty_disk)"]
  by (simp add: save_calls_def dirname_def empty_disk_def todos_json_def)

section \<open>The panel registry: focus\<close>

text \<open>What focus events do to the registry: they set the current panel and render.\<close>

lemma fold_focus_handler:
  "panels (fold focus_handler qs fw) = panels fw \<and>
   listeners (fold focus_handler qs fw) = listeners fw \<and>
   calls (fold focus_handler qs fw) = calls fw @ replicate (length qs) Render \<and>
   currentPanel (fold focus_handler qs fw) =
     (if qs = [] then currentPanel fw else panel_type (last qs))"
proof (induction qs arbitrary: fw)
  case Nil
  then show ?case by simp
next
  case (Cons q qs)
  have "calls (focus_handler q fw) @ replicate (length qs) Render =
          calls fw @ replicate (Suc (length qs)) Render"
    by (simp add: focus_handler_def render_def)
  with Cons [of "focus_handler q fw"] show ?case
    by (simp add: focus_handler_def render_def)
qed

lemma element_focus_effect:
  "panels (element_focus i fw) = panels fw \<and>
   listeners (element_focus i fw) = listeners fw \<and>
   (\<exists>n. calls (element_focus i fw) = calls fw @ replicate n Render) \<and>
   (currentPanel (element_focus i fw) = currentPanel fw \<or>
    currentPanel (element_focus i fw) \<in> panel_type ` set (listeners fw))"
proof -
  let ?qs = "filter (\<lambda>q. panel_id q = i) (listeners fw)"
  note f = fold_focus_handler [of ?qs fw]
  have "?qs \<noteq> [] \<longrightarrow> last ?qs \<in> set (listeners fw)"
    using last_in_set [of ?qs] by auto
  with f show ?thesis
    unfolding element_focus_def by (cases "?qs = []") auto
qed

lemma fold_element_focus:
  "panels (fold element_focus evs fw) = panels fw \<and>
   listeners (fold element_focus evs fw) = listeners fw \<and>
   (\<exists>n. calls (fold element_focus evs fw) = calls fw @ replicate n Render) \<and>
   (currentPanel (fold element_focus evs fw) = currentPanel fw \<or>
    currentPanel (fold element_focus evs fw) \<in> panel_type ` set (listeners fw))"
proof (induction evs arbitrary: fw)
  case Nil
  then show ?case by simp
next
  case (Cons i evs)
  note e = element_focus_effect [of i fw]
  note ih = Cons [of "element_focus i fw"]
  from e obtain n where n: "calls (element_focus i fw) = calls fw @ replicate n Render"
    by blast
  from ih obtain m where
    m: "calls (fold element_focus evs (element_focus i fw)) =
          calls (element_focus i fw) @ replicate m Render"
    by blast
  from n m have "calls (fold element_focus (i # evs) fw) = calls fw @ replicate (n + m) Render"
    by (simp add: replicate_add)
  then have c: "\<exists>k. calls (fold element_focus (i # evs) fw) = calls fw @ replicate k Render"
    by blast
  from e ih c show ?case
    by auto
qed

lemma registerPanel_effect:
  "panels (registerPanel evs p fw) = (panels fw)(panel_type p \<mapsto> p) \<and>
   listeners (registerPanel evs p fw) = listeners fw @ [p] \<and>
   (\<exists>n. calls (registerPanel evs p fw) =
          calls fw @ Append (panel_id p) # replicate n Render) \<and>
   (currentPanel (registerPanel evs p fw) = currentPanel fw \<or>
    currentPanel (registerPanel evs p fw) \<in> panel_type ` set (listeners fw))"
  using fold_element_focus [of evs
      "fw\<lparr>panels := (panels fw)(panel_type p \<mapsto> p),
          calls := calls fw @ [Append (panel_id p)]\<rparr>"]
  by (simp add: registerPanel_def Let_def)

lemma count_no_Render [simp]:
  "count_list (replicate n Render) (Blur i) = 0" "count_list (replicate n Render) (Focus i) = 0"
  by (induction n) simp_all


lemmas registry_defs =
  new_BlessedUIFramework_def list_panel_def details_panel_def status_panel_def
  registerPanel_def element_focus_def focus_handler_def render_def switchToPanel_def
  panel_blur_def panel_focus_def calls_since_def Let_def


text \<open>
  The condition on the panels registered before is needed. Let \<open>b\<close> be registered already
  and hold the toolkit's focus; registering \<open>a\<close> and then \<open>b\<close> again, the second append of
  \<open>b\<close> sends its element a focus event, the listener of the first registration makes
  \<open>b\<close> the current panel, and \<open>switchToPanel\<close> then calls \<open>blur()\<close> on \<open>b\<close> and never on
  \<open>a\<close>.
\<close>

lemma registering_again_moves_the_focus:
  "currentPanel (registerPanel [] details_panel new_BlessedUIFramework) = TODO_LIST \<and>
   currentPanel (registerPanel [2] details_panel (registerPanel [] list_panel
     (registerPanel [] details_panel new_BlessedUIFramework))) = DETAILS \<and>
   calls_since (registerPanel [] details_panel new_BlessedUIFramework)
     (switchToPanel DETAILS (registerPanel [2] details_panel (registerPanel [] list_panel
        (registerPanel [] details_panel new_BlessedUIFramework)))) =
     [Append 1, Append 2, Render, Blur 2, Focus 2, Render, Render]"
  by (simp add: registry_defs)

text \<open>
  \<open>registerPanel\<close> keys a panel by its own type, and \<open>switchToPanel\<close> leaves the
  registered panels alone, so in a registry built by them every panel is found under its
  own type.
\<close>

lemma registerPanel_own_type:
  assumes "\<forall>t q. panels fw t = Some q \<longrightarrow> panel_type q = t"
  shows "\<forall>t q. panels (registerPanel evs p fw) t = Some q \<longrightarrow> panel_type q = t"
  using assms registerPanel_effect [of evs p fw] by simp

lemma switchToPanel_panels: "panels (switchToPanel t fw) = panels fw"
  by (simp add: switchToPanel_def panel_blur_def panel_focus_def focus_handler_def
        render_def Let_def split: option.splits)

text \<open>
  For a panel registered once, the focus event of its element runs exactly the listener
  that \<open>panel_focus\<close> runs.
\<close>

lemma element_focus_registered_once:
  assumes "filter (\<lambda>q. panel_id q = panel_id p) (listeners fw) = [p]"
  shows "element_focus (panel_id p) fw = focus_handler p fw"
  using assms by (simp add: element_focus_def)

text \<open>
  C10. Switching to the type that already holds the focus, when a focusable panel is
  registered under it (under its own type, as \<open>registerPanel\<close> registers), is not a
  no-op: the registry calls \<open>blur()\<close> and then \<open>focus()\<close> on that panel, once each, and
  then only renders; the current panel and the registered panels stay as they were.
\<close>

theorem switch_to_current_panel:
  assumes "panels fw (currentPanel fw) = Some p"
    and "panel_type p = currentPanel fw"
    and "focusable p"
  shows "switchToPanel (currentPanel fw) fw \<noteq> fw \<and>
         currentPanel (switchToPanel (currentPanel fw) fw) = currentPanel fw \<and>
         panels (switchToPanel (currentPanel fw) fw) = panels fw \<and>
         calls (switchToPanel (currentPanel fw) fw) =
           calls fw @ [Blur (panel_id p), Focus (panel_id p)] @
             replicate (if focus_emits p then 2 else 1) Render"
proof -
  have c: "calls (switchToPanel (currentPanel fw) fw) =
             calls fw @ [Blur (panel_id p), Focus (panel_id p)] @
               replicate (if focus_emits p then 2 else 1) Render"
    using assms
    by (simp add: switchToPanel_def panel_blur_def panel_focus_def focus_handler_def
          render_def Let_def numeral_2_eq_2)
  then have "calls (switchToPanel (currentPanel fw) fw) \<noteq> calls fw"
    by simp
  then have 1: "switchToPanel (currentPanel fw) fw \<noteq> fw"
    by metis
  have 2: "currentPanel (switchToPanel (currentPanel fw) fw) = currentPanel fw \<and>
           panels (switchToPanel (currentPanel fw) fw) = panels fw"
    using assms
    by (simp add: switchToPanel_def panel_blur_def panel_focus_def focus_handler_def
          render_def Let_def)
  from 1 2 c show ?thesis
    by simp
qed

theorem switch_to_current_panel_witness:
  "calls (switchToPanel TODO_LIST (registerPanel [] list_panel new_BlessedUIFramework)) =
     [Append 1, Blur 1, Focus 1, Render, Render] \<and>
   currentPanel (switchToPanel TODO_LIST (registerPanel [] list_panel new_BlessedUIFramework))
     = TODO_LIST"
  using switch_to_current_panel [of "registerPanel [] list_panel new_BlessedUIFramework"
          list_panel]
  by (simp add: new_BlessedUIFramework_def list_panel_def registerPanel_def numeral_2_eq_2)

section \<open>Storage: load\<close>

text \<open>
  C6. \<open>load\<close> never raises: it returns an array whatever the file system holds and
  whatever a read throws. It returns the empty array when the file does not exist, when
  its text cannot be parsed, when the read fails, and when the value has no array
  \<open>todos\<close>. Otherwise it returns one todo per record, with the text of \<open>createdAt\<close> and
  \<open>updatedAt\<close> turned into dates, and a record without \<open>updatedAt\<close> gets the date of its
  \<open>createdAt\<close>.
\<close>

theorem load_never_raises:
  "(\<exists>ts. load rf p d = Inr ts) \<and>
   (files d p = None \<longrightarrow> load rf p d = Inr []) \<and>
   (files d p = Some Unparsable \<longrightarrow> load rf p d = Inr []) \<and>
   (rf \<noteq> None \<longrightarrow> load rf p d = Inr []) \<and>
   (\<forall>f. files d p = Some (Parsed f) \<and> fmt_todos f = None \<longrightarrow> load rf p d = Inr []) \<and>
   (\<forall>f js. rf = None \<and> files d p = Some (Parsed f) \<and> fmt_todos f = Some js \<longrightarrow>
      load rf p d = Inr (map revive js)) \<and>
   (\<forall>j dt. j_createdAt j = JDateString dt \<longrightarrow> createdAt (revive j) = dt) \<and>
   (\<forall>j dt. j_updatedAt j = Some (JDateString dt) \<longrightarrow> updatedAt (revive j) = Some dt) \<and>
   (\<forall>j. j_updatedAt j = None \<longrightarrow> updatedAt (revive j) = Some (createdAt (revive j)))"
  by (auto simp: load_def load_try_def existsSync_def readFileSync_def JSON_parse_def
        revive_def newDate_def truthy_def split: sum.splits option.splits content.splits)

theorem load_never_raises_witness:
  "load None todos_json empty_disk = Inr [] \<and>
   load None todos_json corrupt_disk = Inr [] \<and>
   load (Some (Error ''EACCES'')) todos_json legacy_disk = Inr [] \<and>
   load None todos_json legacy_disk = Inr [milk]"
proof -
  have 1: "load None todos_json empty_disk = Inr []"
    using load_never_raises [of None todos_json empty_disk]
    by (simp add: empty_disk_def)
  have 2: "load None todos_json corrupt_disk = Inr []"
    using load_never_raises [of None todos_json corrupt_disk]
    by (simp add: corrupt_disk_def)
  have 3: "load (Some (Error ''EACCES'')) todos_json legacy_disk = Inr []"
    using load_never_raises [of "Some (Error ''EACCES'')" todos_json legacy_disk]
    by simp
  have 4: "load None todos_json legacy_disk = Inr [milk]"
    using load_never_raises [of None todos_json legacy_disk]
    by (simp add: legacy_disk_def milk_def revive_def newDate_def truthy_def)
  from 1 2 3 4 show ?thesis
    by simp
qed

section \<open>TodoModel: validation\<close>

lemma not_valid_iff: "(\<not> isValidTitle t) = (length (trim t) = 0 \<or> length (trim t) > 100)"
  unfolding isValidTitle_def MIN_TITLE_LENGTH_def MAX_TITLE_LENGTH_def
  by (cases "trim t") auto

text \<open>
  C4. For a title whose trimmed length is 0 or more than 100, \<open>add\<close> and \<open>updateTitle\<close>
  throw the error for an invalid title and return the state they were given: the store,
  the collection and the file system with its journal are unchanged, so nothing was added
  or modified and no save was made.
\<close>

theorem invalid_title_rejected:
  assumes "length (trim t) = 0 \<or> length (trim t) > 100"
  shows "add t uid now flt s = (Inl invalid_title, s) \<and>
         updateTitle i t flt s = (Inl invalid_title, s)"
  using assms by (simp add: add_def updateTitle_def not_valid_iff)

theorem invalid_title_rejected_witness:
  "add ''   '' ''7f3c'' 1758189600000 NoFault fresh =
     (Inl (Error ''Invalid title. Must be between 1 and 100 characters.''), fresh) \<and>
   updateTitle ''7f3c'' (replicate 101 CHR ''x'') NoFault fresh =
     (Inl (Error ''Invalid title. Must be between 1 and 100 characters.''), fresh)"
  using invalid_title_rejected [of "''   ''" "''7f3c''" 1758189600000 NoFault fresh "''7f3c''"]
        invalid_title_rejected [of "replicate 101 CHR ''x''" "''7f3c''" 1758189600000 NoFault
          fresh "''7f3c''"]
  by (simp add: trim_def isWhiteSpace_def invalid_title_def)

section \<open>TodoModel: a save that fails\<close>

lemma saveTodos_effect:
  assumes "saveTodos flt s = (r, s')"
  shows "heap s' = heap s \<and> todos s' = todos s \<and> filePath s' = filePath s \<and>
         files (disk s') (filePath s) =
           (if flt = NoFault then Some (save_data (contents s)) else files (disk s) (filePath s))"
proof -
  obtain q d' where sv: "save flt (filePath s) (contents s) (disk s) = (q, d')"
    by (cases "save flt (filePath s) (contents s) (disk s)")
  from assms sv have "s' = s\<lparr>disk := d'\<rparr>"
    by (auto simp: saveTodos_def split: sum.splits)
  with save_final_path [OF sv] show ?thesis
    by simp
qed

lemma saveTodos_fails:
  assumes "thrown flt = Some e"
  shows "\<exists>d'. saveTodos flt s = (Inl (persist_error e), s\<lparr>disk := d'\<rparr>) \<and>
              files d' (filePath s) = files (disk s) (filePath s)"
proof -
  obtain q d' where sv: "save flt (filePath s) (contents s) (disk s) = (q, d')"
    by (cases "save flt (filePath s) (contents s) (disk s)")
  from save_cases [OF sv] assms
  have q: "q = Inl (Error (''Failed to save todos: '' @ toString e))"
    by auto
  from assms have "flt \<noteq> NoFault"
    by auto
  with save_final_path [OF sv] have "files d' (filePath s) = files (disk s) (filePath s)"
    by simp
  with sv q show ?thesis
    by (auto simp: saveTodos_def persist_error_def)
qed

lemma filter_shorter: "(length (filter P xs) < length xs) = (\<exists>x\<in>set xs. \<not> P x)"
  by (induction xs) (auto simp: less_Suc_eq_le)

text \<open>
  C7. Let the platform throw \<open>e\<close> during the save. Then \<open>add\<close> (of a valid title),
  \<open>delete\<close> (of an id that is there), \<open>toggleComplete\<close> and \<open>updateTitle\<close> (of an id that
  is found) and \<open>clear\<close> throw, with a message that carries \<open>e\<close>, and the state they leave
  has the change in memory (the new object pushed, the references filtered, the object
  changed in place, the array emptied) while the file at the storage path is as it was.
\<close>

theorem persistence_failure_propagates:
  assumes "thrown flt = Some e"
  shows
    "(isValidTitle t \<longrightarrow>
        (\<exists>s'. add t uid now flt s = (Inl (persist_error e), s') \<and>
              heap s' = heap s @ [\<lparr>todo_id = uid, title = trim t, description = None,
                 completed = False, createdAt = Date now, updatedAt = None\<rparr>] \<and>
              todos s' = todos s @ [length (heap s)] \<and>
              files (disk s') (filePath s) = files (disk s) (filePath s))) \<and>
     ((\<exists>r\<in>set (todos s). todo_id (deref s r) = i) \<longrightarrow>
        (\<exists>s'. delete i flt s = (Inl (persist_error e), s') \<and>
              heap s' = heap s \<and>
              todos s' = filter (\<lambda>r. todo_id (deref s r) \<noteq> i) (todos s) \<and>
              files (disk s') (filePath s) = files (disk s) (filePath s))) \<and>
     (\<forall>r. find_todo i s = Some r \<longrightarrow>
        (\<exists>s'. toggleComplete i flt s = (Inl (persist_error e), s') \<and>
              heap s' = (heap s)[r := (deref s r)\<lparr>completed := \<not> completed (deref s r)\<rparr>] \<and>
              todos s' = todos s \<and>
              files (disk s') (filePath s) = files (disk s) (filePath s))) \<and>
     (\<forall>r. isValidTitle t \<and> find_todo i s = Some r \<longrightarrow>
        (\<exists>s'. updateTitle i t flt s = (Inl (persist_error e), s') \<and>
              heap s' = (heap s)[r := (deref s r)\<lparr>title := trim t\<rparr>] \<and>
              todos s' = todos s \<and>
              files (disk s') (filePath s) = files (disk s) (filePath s))) \<and>
     (\<exists>s'. clear flt s = (Inl (persist_error e), s') \<and>
           heap s' = heap s \<and> todos s' = [] \<and>
           files (disk s') (filePath s) = files (disk s) (filePath s))"
proof (intro conjI impI allI)
  assume "isValidTitle t"
  let ?s1 = "s\<lparr>heap := heap s @ [\<lparr>todo_id = uid, title = trim t, description = None,
                 completed = False, createdAt = Date now, updatedAt = None\<rparr>],
               todos := todos s @ [length (heap s)]\<rparr>"
  from saveTodos_fails [OF assms, of ?s1] \<open>isValidTitle t\<close>
  show "\<exists>s'. add t uid now flt s = (Inl (persist_error e), s') \<and>
              heap s' = heap s @ [\<lparr>todo_id = uid, title = trim t, description = None,
                 completed = False, createdAt = Date now, updatedAt = None\<rparr>] \<and>
              todos s' = todos s @ [length (heap s)] \<and>
              files (disk s') (filePath s) = files (disk s) (filePath s)"
    by (auto simp: add_def alloc_def sanitizeTitle_def Let_def)
next
  assume "\<exists>r\<in>set (todos s). todo_id (deref s r) = i"
  then have "length (filter (\<lambda>r. todo_id (deref s r) \<noteq> i) (todos s)) < length (todos s)"
    by (simp add: filter_shorter)
  with saveTodos_fails [OF assms, of "s\<lparr>todos := filter (\<lambda>r. todo_id (deref s r) \<noteq> i) (todos s)\<rparr>"]
  show "\<exists>s'. delete i flt s = (Inl (persist_error e), s') \<and>
              heap s' = heap s \<and>
              todos s' = filter (\<lambda>r. todo_id (deref s r) \<noteq> i) (todos s) \<and>
              files (disk s') (filePath s) = files (disk s) (filePath s)"
    by (auto simp: delete_def Let_def)
next
  fix r assume "find_todo i s = Some r"
  with saveTodos_fails [OF assms,
      of "s\<lparr>heap := (heap s)[r := (deref s r)\<lparr>completed := \<not> completed (deref s r)\<rparr>]\<rparr>"]
  show "\<exists>s'. toggleComplete i flt s = (Inl (persist_error e), s') \<and>
              heap s' = (heap s)[r := (deref s r)\<lparr>completed := \<not> completed (deref s r)\<rparr>] \<and>
              todos s' = todos s \<and>
              files (disk s') (filePath s) = files (disk s) (filePath s)"
    by (auto simp: toggleComplete_def Let_def)
next
  fix r assume "isValidTitle t \<and> find_todo i s = Some r"
  with saveTodos_fails [OF assms,
      of "s\<lparr>heap := (heap s)[r := (deref s r)\<lparr>title := trim t\<rparr>]\<rparr>"]
  show "\<exists>s'. updateTitle i t flt s = (Inl (persist_error e), s') \<and>
              heap s' = (heap s)[r := (deref s r)\<lparr>title := trim t\<rparr>] \<and>
              todos s' = todos s \<and>
              files (disk s') (filePath s) = files (disk s) (filePath s)"
    by (auto simp: updateTitle_def sanitizeTitle_def Let_def)
next
  from saveTodos_fails [OF assms, of "s\<lparr>todos := []\<rparr>"]
  show "\<exists>s'. clear flt s = (Inl (persist_error e), s') \<and>
           heap s' = heap s \<and> todos s' = [] \<and>
           files (disk s') (filePath s) = files (disk s) (filePath s)"
    by (auto simp: clear_def Let_def)
qed

lemma fresh_eq:
  "fresh = \<lparr>heap = [], todos = [], filePath = todos_json, disk = empty_disk\<rparr>"
  by (simp add: fresh_def new_TodoModel_def load_def load_try_def existsSync_def
        empty_disk_def)

lemma valid_Buy_milk: "isValidTitle ''  Buy milk ''"
  by (simp add: isValidTitle_def trim_def isWhiteSpace_def MIN_TITLE_LENGTH_def
        MAX_TITLE_LENGTH_def)

theorem persistence_failure_propagates_witness:
  "fst (add ''  Buy milk '' ''7f3c'' 1758189600000 (WriteFails (Error ''ENOSPC'') None) fresh)
     = Inl (Error
         ''Failed to persist todos: Error: Failed to save todos: Error: ENOSPC'') \<and>
   todos (snd (add ''  Buy milk '' ''7f3c'' 1758189600000
     (WriteFails (Error ''ENOSPC'') None) fresh)) = [0] \<and>
   files (disk (snd (add ''  Buy milk '' ''7f3c'' 1758189600000
     (WriteFails (Error ''ENOSPC'') None) fresh))) todos_json = None"
proof -
  have t: "thrown (WriteFails (Error ''ENOSPC'') None) = Some (Error ''ENOSPC'')"
    by simp
  from persistence_failure_propagates [OF t, of "''  Buy milk ''" "''7f3c''" 1758189600000
      fresh] valid_Buy_milk
  obtain s' where
    "add ''  Buy milk '' ''7f3c'' 1758189600000 (WriteFails (Error ''ENOSPC'') None) fresh
       = (Inl (persist_error (Error ''ENOSPC'')), s')"
    and "todos s' = todos fresh @ [length (heap fresh)]"
    and "files (disk s') (filePath fresh) = files (disk fresh) (filePath fresh)"
    by blast
  then show ?thesis
    by (simp add: fresh_eq persist_error_def empty_disk_def)
qed

section \<open>TodoModel: the titles that are stored\<close>

lemma trim_prefix: "\<exists>zs. dropWhile isWhiteSpace s = trim s @ zs"
proof -
  let ?u = "dropWhile isWhiteSpace s"
  have "rev ?u = takeWhile isWhiteSpace (rev ?u) @ dropWhile isWhiteSpace (rev ?u)"
    by simp
  then have "?u = rev (dropWhile isWhiteSpace (rev ?u)) @ rev (takeWhile isWhiteSpace (rev ?u))"
    by (metis rev_append rev_rev_ident)
  then show ?thesis
    unfolding trim_def by blast
qed

lemma trim_no_leading: "dropWhile isWhiteSpace (trim s) = trim s"
proof (cases "trim s")
  case Nil
  then show ?thesis by simp
next
  case (Cons c cs)
  obtain zs where z: "dropWhile isWhiteSpace s = trim s @ zs"
    using trim_prefix by blast
  then have "dropWhile isWhiteSpace s \<noteq> []" and "hd (dropWhile isWhiteSpace s) = c"
    using Cons by simp_all
  then have "\<not> isWhiteSpace c"
    using hd_dropWhile by metis
  then show ?thesis
    using Cons by simp
qed

lemma trim_no_trailing: "dropWhile isWhiteSpace (rev (trim s)) = rev (trim s)"
proof -
  let ?v = "dropWhile isWhiteSpace (rev (dropWhile isWhiteSpace s))"
  have "rev (trim s) = ?v"
    by (simp add: trim_def)
  moreover have "dropWhile isWhiteSpace ?v = ?v"
    by (simp add: dropWhile_eq_self_iff hd_dropWhile)
  ultimately show ?thesis
    by simp
qed

lemma trim_idem: "trim (trim s) = trim s"
proof -
  have "trim (trim s) = rev (dropWhile isWhiteSpace (rev (trim s)))"
    unfolding trim_def [of "trim s"] by (simp only: trim_no_leading)
  then show ?thesis
    by (simp add: trim_no_trailing)
qed

lemma valid_title_ok: "isValidTitle t \<Longrightarrow> title_ok (sanitizeTitle t)"
  by (simp add: isValidTitle_def title_ok_def sanitizeTitle_def trim_idem
        MIN_TITLE_LENGTH_def MAX_TITLE_LENGTH_def)

lemma saveTodos_inv:
  assumes "saveTodos flt s = (r, s')" and "mem_ok s" and "file_titles_ok (filePath s) (disk s)"
  shows "titles_inv s'"
proof -
  note e = saveTodos_effect [OF assms(1)]
  have m: "mem_ok s'"
    using e assms(2) by (simp add: mem_ok_def)
  have "list_all (\<lambda>j. title_ok (j_title j)) (map todo_toJSON (contents s))"
    using assms(2)
    by (simp add: mem_ok_def contents_def deref_def todo_toJSON_def list_all_iff)
  then have "file_titles_ok (filePath s) (disk s')"
    using e assms(3) by (simp add: file_titles_ok_def save_data_def)
  with m e show ?thesis
    by (simp add: titles_inv_def)
qed

lemma map_spread_effect:
  "map_spread rs s = (cs, s') \<Longrightarrow>
     (\<exists>ext. heap s' = heap s @ ext) \<and> todos s' = todos s \<and> filePath s' = filePath s \<and>
     disk s' = disk s"
proof (induction rs arbitrary: s cs s')
  case Nil
  then show ?case by simp
next
  case (Cons r rs)
  obtain c s1 where 1: "spread r s = (c, s1)"
    by (cases "spread r s")
  obtain cs1 s2 where 2: "map_spread rs s1 = (cs1, s2)"
    by (cases "map_spread rs s1")
  from Cons.prems 1 2 have s': "s' = s2"
    by simp
  from 1 have "heap s1 = heap s @ [deref s r] \<and> todos s1 = todos s \<and>
      filePath s1 = filePath s \<and> disk s1 = disk s"
    by (auto simp: spread_def alloc_def)
  with Cons.IH [OF 2] s' show ?case
    by auto
qed

lemma mem_ok_extend:
  assumes "mem_ok s" and "heap s' = heap s @ ext" and "todos s' = todos s"
  shows "mem_ok s'"
  using assms by (auto simp: mem_ok_def list_all_iff nth_append)

lemma inv_extend:
  assumes "titles_inv s" and "heap s' = heap s @ ext" and "todos s' = todos s"
    and "filePath s' = filePath s" and "disk s' = disk s"
  shows "titles_inv s'"
  using assms mem_ok_extend [of s s' ext] by (simp add: titles_inv_def)

lemma find_todo_Some: "find_todo i s = Some r \<Longrightarrow> r \<in> set (todos s) \<and> todo_id (deref s r) = i"
  by (auto simp: find_todo_def find_Some_iff)

lemma inv_new:
  assumes "file_titles_ok p d"
  shows "titles_inv (new_TodoModel rf p d)"
proof -
  define l where "l = (case load rf p d of Inl e \<Rightarrow> [] | Inr ts \<Rightarrow> ts)"
  have "list_all (\<lambda>t. title_ok (title t)) l"
    using assms unfolding l_def
    by (auto simp: load_def load_try_def existsSync_def readFileSync_def JSON_parse_def
          file_titles_ok_def revive_def list_all_iff
          split: option.splits content.splits sum.splits)
  then have "mem_ok \<lparr>heap = l, todos = [0..<length l], filePath = p, disk = d\<rparr>"
    by (simp add: mem_ok_def list_all_length)
  then show ?thesis
    using assms by (simp add: titles_inv_def new_TodoModel_def l_def Let_def)
qed

lemma inv_add: assumes "titles_inv s" shows "titles_inv (snd (add t uid now flt s))"
proof (cases "isValidTitle t")
  case False
  then show ?thesis using assms by (simp add: add_def)
next
  case True
  let ?n = "\<lparr>todo_id = uid, title = sanitizeTitle t, description = None,
              completed = False, createdAt = Date now, updatedAt = None\<rparr>"
  let ?s1 = "s\<lparr>heap := heap s @ [?n], todos := todos s @ [length (heap s)]\<rparr>"
  obtain r s' where sv: "saveTodos flt ?s1 = (r, s')"
    by (cases "saveTodos flt ?s1")
  have "mem_ok ?s1"
    using assms valid_title_ok [OF True]
    by (auto simp: titles_inv_def mem_ok_def list_all_iff nth_append)
  moreover have "file_titles_ok (filePath ?s1) (disk ?s1)"
    using assms by (simp add: titles_inv_def)
  ultimately have "titles_inv s'"
    using saveTodos_inv [OF sv] by blast
  moreover have "snd (add t uid now flt s) = s'"
    using True sv by (simp add: add_def alloc_def Let_def split: sum.splits)
  ultimately show ?thesis by simp
qed

lemma inv_delete: assumes "titles_inv s" shows "titles_inv (snd (delete i flt s))"
proof -
  let ?s1 = "s\<lparr>todos := filter (\<lambda>r. todo_id (deref s r) \<noteq> i) (todos s)\<rparr>"
  obtain r s' where sv: "saveTodos flt ?s1 = (r, s')"
    by (cases "saveTodos flt ?s1")
  have m: "mem_ok ?s1"
    using assms by (auto simp: titles_inv_def mem_ok_def list_all_iff)
  have f: "file_titles_ok (filePath ?s1) (disk ?s1)"
    using assms by (simp add: titles_inv_def)
  have "titles_inv s'"
    using saveTodos_inv [OF sv m f] .
  moreover have "titles_inv ?s1"
    using m f by (simp add: titles_inv_def)
  moreover have "snd (delete i flt s) = s' \<or> snd (delete i flt s) = ?s1"
    using sv by (simp add: delete_def Let_def split: sum.splits)
  ultimately show ?thesis by auto
qed

lemma inv_update:
  assumes "titles_inv s" and "r \<in> set (todos s)" and "title_ok (title x)"
    and sv: "saveTodos flt (s\<lparr>heap := (heap s)[r := x]\<rparr>) = (q, s')"
  shows "titles_inv s'"
proof -
  let ?s1 = "s\<lparr>heap := (heap s)[r := x]\<rparr>"
  have "mem_ok ?s1"
    using assms(1-3) by (auto simp: titles_inv_def mem_ok_def list_all_iff nth_list_update)
  moreover have "file_titles_ok (filePath ?s1) (disk ?s1)"
    using assms(1) by (simp add: titles_inv_def)
  ultimately show ?thesis
    using saveTodos_inv [OF sv] by blast
qed

lemma inv_toggleComplete: assumes "titles_inv s" shows "titles_inv (snd (toggleComplete i flt s))"
proof (cases "find_todo i s")
  case None
  then show ?thesis using assms by (simp add: toggleComplete_def)
next
  case (Some r)
  let ?x = "(deref s r)\<lparr>completed := \<not> completed (deref s r)\<rparr>"
  obtain q s' where sv: "saveTodos flt (s\<lparr>heap := (heap s)[r := ?x]\<rparr>) = (q, s')"
    by (cases "saveTodos flt (s\<lparr>heap := (heap s)[r := ?x]\<rparr>)")
  have r: "r \<in> set (todos s)"
    using find_todo_Some [OF Some] by simp
  then have "title_ok (title ?x)"
    using assms by (simp add: titles_inv_def mem_ok_def list_all_iff deref_def)
  then have "titles_inv s'"
    using inv_update [OF assms r _ sv] by simp
  moreover have "snd (toggleComplete i flt s) = s'"
    using Some sv by (simp add: toggleComplete_def Let_def split: sum.splits)
  ultimately show ?thesis by simp
qed

lemma inv_spread: assumes "titles_inv s" shows "titles_inv (snd (spread r s))"
  using inv_extend [OF assms, of "snd (spread r s)" "[deref s r]"]
  by (simp add: spread_def alloc_def)

lemma inv_updateTitle: assumes "titles_inv s" shows "titles_inv (snd (updateTitle i t flt s))"
proof (cases "isValidTitle t")
  case False
  then show ?thesis using assms by (simp add: updateTitle_def)
next
  case True
  show ?thesis
  proof (cases "find_todo i s")
    case None
    then show ?thesis using assms True by (simp add: updateTitle_def)
  next
    case (Some r)
    let ?x = "(deref s r)\<lparr>title := sanitizeTitle t\<rparr>"
    obtain q s' where sv: "saveTodos flt (s\<lparr>heap := (heap s)[r := ?x]\<rparr>) = (q, s')"
      by (cases "saveTodos flt (s\<lparr>heap := (heap s)[r := ?x]\<rparr>)")
    have r: "r \<in> set (todos s)"
      using find_todo_Some [OF Some] by simp
    have "title_ok (title ?x)"
      using valid_title_ok [OF True] by simp
    then have i: "titles_inv s'"
      using inv_update [OF assms r _ sv] by simp
    have "snd (updateTitle i t flt s) = s' \<or> snd (updateTitle i t flt s) = snd (spread r s')"
      using True Some sv by (simp add: updateTitle_def Let_def split: sum.splits prod.splits)
    then show ?thesis
      using i inv_spread [OF i] by auto
  qed
qed

lemma inv_clear: assumes "titles_inv s" shows "titles_inv (snd (clear flt s))"
proof -
  obtain q s' where sv: "saveTodos flt (s\<lparr>todos := []\<rparr>) = (q, s')"
    by (cases "saveTodos flt (s\<lparr>todos := []\<rparr>)")
  have "titles_inv s'"
    using saveTodos_inv [OF sv] assms by (simp add: titles_inv_def mem_ok_def)
  moreover have "snd (clear flt s) = s'"
    using sv by (simp add: clear_def Let_def split: sum.splits)
  ultimately show ?thesis by simp
qed

lemma inv_map_spread: assumes "titles_inv s" shows "titles_inv (snd (map_spread rs s))"
proof -
  obtain cs s' where m: "map_spread rs s = (cs, s')"
    by (cases "map_spread rs s")
  from map_spread_effect [OF m] inv_extend [OF assms] show ?thesis
    using m by auto
qed

lemma inv_getById: assumes "titles_inv s" shows "titles_inv (snd (getById i s))"
proof (cases "find_todo i s")
  case None
  then show ?thesis using assms by (simp add: getById_def)
next
  case (Some r)
  then have "snd (getById i s) = snd (spread r s)"
    by (simp add: getById_def split: prod.splits)
  then show ?thesis
    using inv_spread [OF assms] by simp
qed

lemma reachable_inv: "reachable s \<Longrightarrow> titles_inv s"
proof (induction rule: reachable.induct)
  case (start d p rf)
  then have "file_titles_ok p d"
    by (simp add: file_titles_ok_def)
  then show ?case by (rule inv_new)
next
  case (restart s rf)
  then have "file_titles_ok (filePath s) (disk s)"
    by (simp add: titles_inv_def)
  then show ?case by (rule inv_new)
qed (simp_all add: inv_add inv_delete inv_toggleComplete inv_updateTitle inv_clear
       inv_map_spread inv_getById getAll_def getByStatus_def)

text \<open>
  C9. In every state that the model reaches from empty storage, every todo of the
  collection has a title that equals its own trim and has 1 to 100 characters, and so
  has every title in the file at the storage path. The title that a successful \<open>add\<close> or
  \<open>updateTitle\<close> stores is the trim of what the caller gave.
\<close>

theorem stored_titles_trimmed:
  assumes "reachable s"
  shows "(\<forall>x\<in>set (contents s).
            trim (title x) = title x \<and> 1 \<le> length (title x) \<and> length (title x) \<le> 100) \<and>
         file_titles_ok (filePath s) (disk s) \<and>
         (\<forall>r s'. add t uid now flt s = (Inr r, s') \<longrightarrow>
            r \<in> set (todos s') \<and> title (deref s' r) = trim t) \<and>
         (\<forall>c s'. updateTitle i t flt s = (Inr (Some c), s') \<longrightarrow>
            title (deref s' c) = trim t \<and>
            (\<exists>r\<in>set (todos s'). todo_id (deref s' r) = i \<and> title (deref s' r) = trim t))"
proof -
  have ti: "titles_inv s"
    using assms by (rule reachable_inv)
  then have 1: "\<forall>x\<in>set (contents s).
      trim (title x) = title x \<and> 1 \<le> length (title x) \<and> length (title x) \<le> 100"
    by (auto simp: titles_inv_def mem_ok_def list_all_iff contents_def deref_def title_ok_def)
  have 2: "file_titles_ok (filePath s) (disk s)"
    using ti by (simp add: titles_inv_def)
  have 3: "\<forall>r s'. add t uid now flt s = (Inr r, s') \<longrightarrow>
            r \<in> set (todos s') \<and> title (deref s' r) = trim t"
  proof (intro allI impI)
    fix r s' assume a: "add t uid now flt s = (Inr r, s')"
    then have v: "isValidTitle t"
      by (auto simp: add_def split: if_splits)
    let ?n = "\<lparr>todo_id = uid, title = sanitizeTitle t, description = None,
                completed = False, createdAt = Date now, updatedAt = None\<rparr>"
    let ?s1 = "s\<lparr>heap := heap s @ [?n], todos := todos s @ [length (heap s)]\<rparr>"
    obtain q s2 where sv: "saveTodos flt ?s1 = (q, s2)"
      by (cases "saveTodos flt ?s1")
    from a v sv have "r = length (heap s) \<and> s' = s2"
      by (auto simp: add_def alloc_def Let_def split: sum.splits)
    with saveTodos_effect [OF sv] show "r \<in> set (todos s') \<and> title (deref s' r) = trim t"
      by (simp add: deref_def sanitizeTitle_def)
  qed
  have 4: "\<forall>c s'. updateTitle i t flt s = (Inr (Some c), s') \<longrightarrow>
            title (deref s' c) = trim t \<and>
            (\<exists>r\<in>set (todos s'). todo_id (deref s' r) = i \<and> title (deref s' r) = trim t)"
  proof (intro allI impI)
    fix c s' assume a: "updateTitle i t flt s = (Inr (Some c), s')"
    then have v: "isValidTitle t"
      by (auto simp: updateTitle_def split: if_splits)
    from a v obtain r where f: "find_todo i s = Some r"
      by (auto simp: updateTitle_def split: option.splits)
    let ?x = "(deref s r)\<lparr>title := sanitizeTitle t\<rparr>"
    let ?s1 = "s\<lparr>heap := (heap s)[r := ?x]\<rparr>"
    obtain q s2 where sv: "saveTodos flt ?s1 = (q, s2)"
      by (cases "saveTodos flt ?s1")
    from a v f sv have c: "c = length (heap s2) \<and> s' = s2\<lparr>heap := heap s2 @ [heap s2 ! r]\<rparr>"
      by (auto simp: updateTitle_def spread_def alloc_def deref_def Let_def split: sum.splits)
    have r: "r \<in> set (todos s) \<and> todo_id (deref s r) = i"
      using find_todo_Some [OF f] .
    then have lt: "r < length (heap s)"
      using ti by (simp add: titles_inv_def mem_ok_def list_all_iff)
    note e = saveTodos_effect [OF sv]
    from e lt have h: "heap s2 ! r = ?x" "r < length (heap s2)"
      by simp_all
    from c h have "title (deref s' c) = trim t"
      by (simp add: deref_def sanitizeTitle_def)
    moreover from c h r e have "r \<in> set (todos s') \<and> todo_id (deref s' r) = i \<and>
        title (deref s' r) = trim t"
      by (simp add: deref_def sanitizeTitle_def nth_append)
    ultimately show "title (deref s' c) = trim t \<and>
            (\<exists>r\<in>set (todos s'). todo_id (deref s' r) = i \<and> title (deref s' r) = trim t)"
      by blast
  qed
  from 1 2 3 4 show ?thesis
    by blast
qed

lemma reachable_added: "reachable added"
  unfolding added_def fresh_def
  by (intro reachable.add reachable.start) (simp add: empty_disk_def)

text \<open>The definitions that a run of the model unfolds.\<close>

lemmas run_defs =
  new_TodoModel_def load_def load_try_def existsSync_def readFileSync_def JSON_parse_def
  revive_def newDate_def truthy_def
  add_def delete_def toggleComplete_def updateTitle_def clear_def getAll_def getById_def
  getByStatus_def find_todo_def spread_def alloc_def deref_def contents_def
  saveTodos_def save_def save_try_def mkdirSync_def writeFileSync_def renameSync_def
  JSON_stringify_def todo_toJSON_def date_toJSON_def save_data_def
  isValidTitle_def sanitizeTitle_def trim_def isWhiteSpace_def
  MIN_TITLE_LENGTH_def MAX_TITLE_LENGTH_def
  assign_title_def
  empty_disk_def todos_json_def version_def dirname_def Let_def

lemma added_mem:
  "heap added = [\<lparr>todo_id = ''7f3c'', title = ''Buy milk'', description = None,
      completed = False, createdAt = Date 1758189600000, updatedAt = None\<rparr>] \<and>
   todos added = [0] \<and> filePath added = todos_json"
  by (simp add: added_def fresh_eq run_defs)

theorem stored_titles_trimmed_witness:
  "map title (contents added) = [''Buy milk''] \<and>
   trim ''Buy milk'' = ''Buy milk'' \<and>
   file_titles_ok todos_json (disk added)"
proof -
  note th = stored_titles_trimmed [OF reachable_added, of "''x''" "''u''" 0 NoFault "''i''"]
  have c: "map title (contents added) = [''Buy milk'']"
    using added_mem by (simp add: contents_def deref_def)
  from th have "\<forall>x\<in>set (contents added). trim (title x) = title x"
    by blast
  then have "\<forall>t\<in>set (map title (contents added)). trim t = t"
    by simp
  with c have 1: "trim ''Buy milk'' = ''Buy milk''"
    by simp
  from th have "file_titles_ok (filePath added) (disk added)"
    by blast
  with added_mem have 2: "file_titles_ok todos_json (disk added)"
    by simp
  from c 1 2 show ?thesis
    by simp
qed

section \<open>TodoModel: what the methods hand out, and \<open>updatedAt\<close>\<close>

text \<open>
  C2. \<open>add\<close> and \<open>toggleComplete\<close> return the reference that \<open>this.todos\<close> holds, not a
  copy. On empty storage \<open>add('  Buy milk ')\<close> returns reference 0, which is the element of
  the collection; \<open>getAll\<close> then shows the title \<open>Buy milk\<close>, and after the caller assigns
  the title of the object it was given, \<open>getAll\<close> shows the assigned title. The same holds
  for the reference that \<open>toggleComplete\<close> returns.
\<close>

theorem add_and_toggleComplete_return_live_references:
  "fst (add ''  Buy milk '' ''7f3c'' 1758189600000 NoFault fresh) = Inr 0 \<and>
   todos added = [0] \<and>
   shown_titles added = [''Buy milk''] \<and>
   shown_titles (assign_title 0 ''changed by the caller'' added) = [''changed by the caller''] \<and>
   fst (toggleComplete ''7f3c'' NoFault added) = Inr (Some 0) \<and>
   todos (snd (toggleComplete ''7f3c'' NoFault added)) = [0] \<and>
   shown_titles (snd (toggleComplete ''7f3c'' NoFault added)) = [''Buy milk''] \<and>
   shown_titles (assign_title 0 ''changed by the caller''
     (snd (toggleComplete ''7f3c'' NoFault added))) = [''changed by the caller'']"
  by (simp add: added_def fresh_eq shown_titles_def run_defs)

text \<open>
  The other reading methods do copy: a reference that \<open>getAll\<close> returns is not an
  element of the collection, and assigning through it leaves the collection as it is.
\<close>

lemma map_spread_refs:
  "map_spread rs s = (cs, s') \<Longrightarrow> \<forall>c\<in>set cs. length (heap s) \<le> c"
proof (induction rs arbitrary: s cs s')
  case Nil
  then show ?case by simp
next
  case (Cons r rs)
  obtain c s1 where 1: "spread r s = (c, s1)"
    by (cases "spread r s")
  obtain cs1 s2 where 2: "map_spread rs s1 = (cs1, s2)"
    by (cases "map_spread rs s1")
  from 1 have c: "c = length (heap s) \<and> length (heap s1) = Suc (length (heap s))"
    by (auto simp: spread_def alloc_def)
  from Cons.prems 1 2 have "cs = c # cs1"
    by simp
  with Cons.IH [OF 2] c show ?case
    by auto
qed

lemma getAll_returns_copies:
  assumes "\<forall>r\<in>set (todos s). r < length (heap s)"
    and "getAll s = (cs, s')" and "c \<in> set cs"
  shows "c \<notin> set (todos s') \<and> contents (assign_title c v s') = contents s'"
proof -
  from assms(2) have m: "map_spread (todos s) s = (cs, s')"
    by (simp add: getAll_def)
  from map_spread_refs [OF m] assms(3) have le: "length (heap s) \<le> c"
    by blast
  from map_spread_effect [OF m] have t: "todos s' = todos s"
    by simp
  with assms(1) le have ne: "\<forall>r\<in>set (todos s'). r \<noteq> c"
    by auto
  then have "\<forall>r\<in>set (todos s'). (heap s')[c := (heap s' ! c)\<lparr>title := v\<rparr>] ! r = heap s' ! r"
    by (metis nth_list_update_neq)
  then have "contents (assign_title c v s') = contents s'"
    by (simp add: contents_def assign_title_def deref_def)
  with ne show ?thesis
    by blast
qed

text \<open>
  C3. No method of the model sets \<open>updatedAt\<close>. After \<open>add\<close> on empty storage the todo has
  its \<open>createdAt\<close> and no \<open>updatedAt\<close>; \<open>toggleComplete\<close> flips \<open>completed\<close> and
  \<open>updateTitle\<close> stores the new title, and both leave \<open>updatedAt\<close> absent.
\<close>

theorem updatedAt_never_set:
  "map createdAt (contents added) = [Date 1758189600000] \<and>
   map updatedAt (contents added) = [None] \<and>
   map completed (contents (snd (toggleComplete ''7f3c'' NoFault added))) = [True] \<and>
   map updatedAt (contents (snd (toggleComplete ''7f3c'' NoFault added))) = [None] \<and>
   map title (contents (snd (updateTitle ''7f3c'' ''Buy oat milk'' NoFault added)))
     = [''Buy oat milk''] \<and>
   map updatedAt (contents (snd (updateTitle ''7f3c'' ''Buy oat milk'' NoFault added)))
     = [None]"
  by (simp add: added_def fresh_eq run_defs)

text \<open>In general \<open>toggleComplete\<close> leaves the \<open>updatedAt\<close> of every object as it was.\<close>

lemma toggleComplete_keeps_updatedAt:
  "map updatedAt (heap (snd (toggleComplete i flt s))) = map updatedAt (heap s)"
proof (cases "find_todo i s")
  case None
  then show ?thesis by (simp add: toggleComplete_def)
next
  case (Some r)
  let ?s1 = "s\<lparr>heap := (heap s)[r := (deref s r)\<lparr>completed := \<not> completed (deref s r)\<rparr>]\<rparr>"
  obtain q s' where sv: "saveTodos flt ?s1 = (q, s')"
    by (cases "saveTodos flt ?s1")
  have "snd (toggleComplete i flt s) = s'"
    using Some sv by (simp add: toggleComplete_def Let_def split: sum.splits)
  moreover have "map updatedAt (heap ?s1) = (map updatedAt (heap s))[r := updatedAt (heap s ! r)]"
    by (simp add: deref_def map_update)
  moreover have "(map updatedAt (heap s))[r := updatedAt (heap s ! r)] = map updatedAt (heap s)"
    by (cases "r < length (heap s)") (simp_all add: list_update_same_conv list_update_beyond)
  ultimately show ?thesis
    using saveTodos_effect [OF sv] by simp
qed

text \<open>
  C5. The collection after \<open>add\<close> on empty storage does not come back from \<open>save\<close> and
  \<open>load\<close> as it was: in memory the todo has no \<open>updatedAt\<close>, and the loaded todo has
  \<open>updatedAt\<close> equal to its \<open>createdAt\<close>. All other fields are equal.
\<close>

theorem load_of_saved_differs:
  "contents added =
     [\<lparr>todo_id = ''7f3c'', title = ''Buy milk'', description = None, completed = False,
       createdAt = Date 1758189600000, updatedAt = None\<rparr>] \<and>
   fst (save NoFault todos_json (contents added) empty_disk) = Inr () \<and>
   load None todos_json (snd (save NoFault todos_json (contents added) empty_disk)) =
     Inr [\<lparr>todo_id = ''7f3c'', title = ''Buy milk'', description = None, completed = False,
           createdAt = Date 1758189600000, updatedAt = Some (Date 1758189600000)\<rparr>] \<and>
   load None todos_json (snd (save NoFault todos_json (contents added) empty_disk)) \<noteq>
     Inr (contents added)"
  by (simp add: added_def fresh_eq run_defs)

text \<open>
  The field \<open>updatedAt\<close> is the only obstacle: a collection whose todos all have a valid
  \<open>createdAt\<close> and a valid \<open>updatedAt\<close> is loaded back as it was saved.
\<close>

lemma revive_toJSON:
  assumes "createdAt t = Date n" and "updatedAt t = Some (Date m)"
  shows "revive (todo_toJSON t) = t"
  using assms
  by (simp add: revive_def todo_toJSON_def date_toJSON_def newDate_def truthy_def)

lemma load_save_roundtrip:
  assumes "\<forall>t\<in>set ts. (\<exists>n. createdAt t = Date n) \<and> (\<exists>m. updatedAt t = Some (Date m))"
  shows "load None p (snd (save NoFault p ts d)) = Inr ts"
proof -
  obtain r d' where sv: "save NoFault p ts d = (r, d')"
    by (cases "save NoFault p ts d")
  from save_final_path [OF sv] have f: "files d' p = Some (save_data ts)"
    by simp
  have "map revive (map todo_toJSON ts) = ts"
    using assms by (induction ts) (auto simp: revive_toJSON)
  with f sv show ?thesis
    by (simp add: load_def load_try_def existsSync_def readFileSync_def JSON_parse_def
          save_data_def)
qed

end
